theory Spec2Isabelle
  imports Complex_Main
begin

section \<open>Triangle rasterizer of the image buffer module\<close>

text \<open>
  A shallow embedding of the template class \<open>Rasterizer\<close> (rasterizer header of the
  \<open>imbuf\<close> module) and of the classes it is built from. The C++ \<open>float\<close> is
  read as a real number: every property below is about which branch is taken, which
  counter moves and which cell is written, and the rounding of float arithmetic plays
  no part in them. The conversion of a C \<open>int\<close> to \<open>float\<close> is modelled where a claim
  turns on it (\<open>float_of_int\<close>). The
  payload type \<open>Inner\<close> of the templates is taken at \<open>float\<close>, as in the usage
  example of the header. Signed C integers are \<open>int\<close>; a \<open>uint32_t\<close> is a
  natural number, reduced modulo \<open>2 ^ 32\<close> wherever the source converts to it.
\<close>

subsection \<open>Vectors of floats\<close>

type_synonym float2 = "real \<times> real"

type_synonym float4 = "real \<times> real \<times> real \<times> real"

definition float2_add :: "float2 \<Rightarrow> float2 \<Rightarrow> float2" where
  "float2_add a b = (fst a + fst b, snd a + snd b)"

definition float2_sub :: "float2 \<Rightarrow> float2 \<Rightarrow> float2" where
  "float2_sub a b = (fst a - fst b, snd a - snd b)"

definition float2_div :: "float2 \<Rightarrow> real \<Rightarrow> float2" where
  "float2_div a d = (fst a / d, snd a / d)"

definition float2_mul :: "float2 \<Rightarrow> real \<Rightarrow> float2" where
  "float2_mul a m = (fst a * m, snd a * m)"

text \<open>Channel \<open>k\<close> of a \<open>float4\<close>, the C++ \<open>fragment_out[k]\<close>.\<close>

fun float4_at :: "float4 \<Rightarrow> nat \<Rightarrow> real" where
  "float4_at (a0, a1, a2, a3) k =
     (if k = 0 then a0 else if k = 1 then a1 else if k = 2 then a2 else a3)"

text \<open>Conversion of a C integer to \<open>uint32_t\<close>.\<close>

definition u32 :: "int \<Rightarrow> nat" where
  "u32 i = nat (i mod 2 ^ 32)"

text \<open>
  Conversion of a C \<open>int\<close> to \<open>float\<close>, as in the comparison of a float with an
  \<open>int\<close>: a float has a significand of 24 bits, so an integer of more bits loses its
  low bits, rounded to nearest with ties to the even significand. \<open>significand_shift a\<close>
  is the number of bits that \<open>a\<close> loses.
\<close>

function significand_shift :: "nat \<Rightarrow> nat" where
  "significand_shift a = (if a < 2 ^ 24 then 0 else Suc (significand_shift (a div 2)))"
  by pat_completeness auto
termination
  by (relation "measure (\<lambda>a. a)") auto

declare significand_shift.simps [simp del]

definition float_of_int :: "int \<Rightarrow> real" where
  "float_of_int i =
     (let a = nat \<bar>i\<bar>;
          q = 2 ^ significand_shift a;
          m = a div q;
          r = a mod q;
          m1 = (if 2 * r > q \<or> (2 * r = q \<and> odd m) then m + 1 else m)
      in real_of_int (sgn i * int (m1 * q)))"

subsection \<open>Interface data of the vertex stage\<close>

record VertexOutInterface =
  coord :: float2
  data :: real

text \<open>\<open>operator+=\<close>: the updated receiver.\<close>

definition operator_add_assign ::
  "VertexOutInterface \<Rightarrow> VertexOutInterface \<Rightarrow> VertexOutInterface" where
  "operator_add_assign this other =
     this\<lparr>coord := float2_add (coord this) (coord other),
          data := data this + data other\<rparr>"

definition operator_sub ::
  "VertexOutInterface \<Rightarrow> VertexOutInterface \<Rightarrow> VertexOutInterface" where
  "operator_sub this other =
     \<lparr>coord = float2_sub (coord this) (coord other), data = data this - data other\<rparr>"

definition operator_div :: "VertexOutInterface \<Rightarrow> real \<Rightarrow> VertexOutInterface" where
  "operator_div this divider =
     \<lparr>coord = float2_div (coord this) divider, data = data this / divider\<rparr>"

text \<open>
  \<open>operator*\<close> fills a local \<open>result\<close> with the scaled fields and then executes
  \<open>return *this;\<close>.
\<close>

definition operator_mul :: "VertexOutInterface \<Rightarrow> real \<Rightarrow> VertexOutInterface" where
  "operator_mul this multiplier =
     (let result = \<lparr>coord = float2_mul (coord this) multiplier,
                     data = data this * multiplier\<rparr>
      in this)"

subsection \<open>Rasterlines, statistics, image buffer\<close>

record Rasterline =
  rl_y :: nat
  rl_start_x :: nat
  rl_end_x :: nat
  start_data :: real
  delta_step :: real

text \<open>
  Modelled from the spec: the statistics header is not among the sources. The spec
  lists six counters that only grow: triangles seen, triangles discarded, rasterlines
  seen, rasterlines discarded, rasterlines clamped and flushes; each \<open>increase_*\<close>
  call of the rasterizer adds one to its counter.
\<close>

record Statistics =
  triangles :: nat
  discarded_triangles :: nat
  rasterlines :: nat
  discarded_rasterlines :: nat
  clamped_rasterlines :: nat
  flushes :: nat

definition increase_triangles :: "Statistics \<Rightarrow> Statistics" where
  "increase_triangles st = st\<lparr>triangles := triangles st + 1\<rparr>"

definition increase_discarded_triangles :: "Statistics \<Rightarrow> Statistics" where
  "increase_discarded_triangles st = st\<lparr>discarded_triangles := discarded_triangles st + 1\<rparr>"

definition increase_rasterlines :: "Statistics \<Rightarrow> Statistics" where
  "increase_rasterlines st = st\<lparr>rasterlines := rasterlines st + 1\<rparr>"

definition increase_discarded_rasterlines :: "Statistics \<Rightarrow> Statistics" where
  "increase_discarded_rasterlines st =
     st\<lparr>discarded_rasterlines := discarded_rasterlines st + 1\<rparr>"

definition increase_clamped_rasterlines :: "Statistics \<Rightarrow> Statistics" where
  "increase_clamped_rasterlines st = st\<lparr>clamped_rasterlines := clamped_rasterlines st + 1\<rparr>"

definition increase_flushes :: "Statistics \<Rightarrow> Statistics" where
  "increase_flushes st = st\<lparr>flushes := flushes st + 1\<rparr>"

text \<open>
  Modelled from the spec: the declaration of \<open>ImBuf\<close> is not among the sources. The
  rasterizer reads the fields \<open>x\<close> (width) and \<open>y\<close> (height), both C \<open>int\<close>, and
  writes through \<open>rect_float\<close>, a flat row-major array of floats, here a store from
  float offsets to values. \<open>channels\<close> is the buffer's configured channel count, which
  the rasterizer never reads.
\<close>

record ImBuf =
  ibuf_x :: int
  ibuf_y :: int
  channels :: int
  rect_float :: "nat \<Rightarrow> real"

text \<open>
  Modelled from the spec: the clamping header is not among the sources. A clamping
  method maps a continuous coordinate to a row or column index and to the distance to
  that index's anchor. The rasterizer is stated over any such method. An index is a C
  \<open>int\<close>, a value of \<open>[-2 ^ 31, 2 ^ 31)\<close>; the type \<open>int\<close> of the model has no such
  bound, and a property that needs it says so.
\<close>

record ClampingMethod =
  scanline_for :: "real \<Rightarrow> int"
  column_for :: "real \<Rightarrow> int"
  distance_to_scanline_anchor :: "real \<Rightarrow> real"
  distance_to_column_anchor :: "real \<Rightarrow> real"

text \<open>
  Modelled from the spec: one clamping method, anchored at the pixel centre as the
  member type \<open>CenterPixelClampingMethod\<close> is named: the index is the first row or
  column whose centre is not before the coordinate, the distance is the way to that
  centre. It is used for concrete inputs only. For a coordinate whose index is not a C
  \<open>int\<close> the conversion of the source is undefined and this instance says nothing
  about the code.
\<close>

definition to_fract :: "real \<Rightarrow> real" where
  "to_fract v = v - real_of_int \<lfloor>v\<rfloor>"

definition round_half_down :: "real \<Rightarrow> int" where
  "round_half_down v = (if to_fract v > 1 / 2 then \<lceil>v\<rceil> else \<lfloor>v\<rfloor>)"

definition distance_to_anchor :: "real \<Rightarrow> real" where
  "distance_to_anchor v =
     (if to_fract v \<le> 1 / 2 then 1 / 2 - to_fract v else 3 / 2 - to_fract v)"

definition CenterPixelClampingMethod :: ClampingMethod where
  "CenterPixelClampingMethod =
     \<lparr>scanline_for = round_half_down, column_for = round_half_down,
      distance_to_scanline_anchor = distance_to_anchor,
      distance_to_column_anchor = distance_to_anchor\<rparr>"

subsection \<open>The rasterizer\<close>

text \<open>
  The template arguments and the members that no method assigns: the two shaders, the
  buffer size \<open>RasterlinesSize\<close> and the clamping method.
\<close>

record 'v Pipeline =
  vertex_shader :: "'v \<Rightarrow> VertexOutInterface"
  fragment_shader :: "real \<Rightarrow> float4"
  RasterlinesSize :: int
  clamping_method :: ClampingMethod

text \<open>
  The members the methods change: the pending rasterlines (\<open>rasterlines_.buffer\<close>, a
  vector read as a list), the image buffer behind \<open>image_buffer_\<close> and \<open>stats\<close>.
  A name cannot end in an underscore here, so the members \<open>vertex_shader_\<close>,
  \<open>fragment_shader_\<close>, \<open>rasterlines_\<close> and \<open>image_buffer_\<close> lose theirs.
\<close>

record Rasterizer =
  rasterlines_buffer :: "Rasterline list"
  image_buffer :: ImBuf
  stats :: Statistics

text \<open>\<open>Rasterlines::is_full\<close>: \<open>buffer.size() == BufferSize\<close>.\<close>

definition is_full :: "'v Pipeline \<Rightarrow> Rasterizer \<Rightarrow> bool" where
  "is_full P s = (int (length (rasterlines_buffer s)) = RasterlinesSize P)"

text \<open>\<open>copy_v4_v4(r, a)\<close>: four floats from \<open>a\<close> to \<open>r[0..3]\<close>.\<close>

definition copy_v4_v4 :: "(nat \<Rightarrow> real) \<Rightarrow> nat \<Rightarrow> float4 \<Rightarrow> (nat \<Rightarrow> real)" where
  "copy_v4_v4 mem r a =
     mem(r := float4_at a 0, r + 1 := float4_at a 1, r + 2 := float4_at a 2,
         r + 3 := float4_at a 3)"

text \<open>
  The loop of \<open>render_rasterline\<close>, from column \<open>x\<close> with payload \<open>d\<close>.
  \<open>pixel_index\<close> is a \<open>uint32_t\<close>, and so is the product \<open>pixel_index * 4\<close>.
\<close>

function render_loop ::
  "(real \<Rightarrow> float4) \<Rightarrow> Rasterline \<Rightarrow> nat \<Rightarrow> real \<Rightarrow> ImBuf \<Rightarrow> ImBuf" where
  "render_loop fs rl x d ib =
     (if x < rl_end_x rl then
        let pixel_index = u32 (int (rl_y rl) * ibuf_x ib + int x);
            pixel_ptr = u32 (int pixel_index * 4);
            fragment_out = fs d
        in render_loop fs rl (x + 1) (d + delta_step rl)
             (ib\<lparr>rect_float := copy_v4_v4 (rect_float ib) pixel_ptr fragment_out\<rparr>)
      else ib)"
  by pat_completeness auto
termination
  by (relation "measure (\<lambda>(fs, rl, x, d, ib). rl_end_x rl - x)") auto

declare render_loop.simps [simp del]

definition render_rasterline :: "'v Pipeline \<Rightarrow> Rasterline \<Rightarrow> ImBuf \<Rightarrow> ImBuf" where
  "render_rasterline P rl ib =
     render_loop (fragment_shader P) rl (rl_start_x rl) (start_data rl) ib"

definition flush :: "'v Pipeline \<Rightarrow> Rasterizer \<Rightarrow> Rasterizer" where
  "flush P s =
     (if rasterlines_buffer s = [] then s
      else s\<lparr>stats := increase_flushes (stats s),
             image_buffer := fold (render_rasterline P) (rasterlines_buffer s) (image_buffer s),
             rasterlines_buffer := []\<rparr>)"

definition append :: "'v Pipeline \<Rightarrow> Rasterline \<Rightarrow> Rasterizer \<Rightarrow> Rasterizer" where
  "append P rasterline s =
     (let s1 = s\<lparr>rasterlines_buffer := rasterlines_buffer s @ [rasterline]\<rparr>
      in if is_full P s1 then flush P s1 else s1)"

text \<open>
  \<open>clamped_rasterline\<close>. Its \<open>BLI_assert\<close> on the row is the guard of both call sites.
  In \<open>start_x >= image_buffer_->x\<close> the \<open>int\<close> width is converted to \<open>float\<close>.
  \<open>end_xi\<close> is a \<open>uint32_t\<close>, so the comparison with the \<open>int\<close> width is unsigned.
\<close>

definition clamped_rasterline ::
  "'v Pipeline \<Rightarrow> int \<Rightarrow> real \<Rightarrow> real \<Rightarrow> real \<Rightarrow> real \<Rightarrow> Rasterizer
     \<Rightarrow> Rasterline option \<times> Rasterizer" where
  "clamped_rasterline P y start_x end_x start_data0 end_data s =
     (let s1 = s\<lparr>stats := increase_rasterlines (stats s)\<rparr> in
      if start_x \<ge> end_x then
        (None, s1\<lparr>stats := increase_discarded_rasterlines (stats s1)\<rparr>)
      else if end_x < 0 then
        (None, s1\<lparr>stats := increase_discarded_rasterlines (stats s1)\<rparr>)
      else if start_x \<ge> float_of_int (ibuf_x (image_buffer s1)) then
        (None, s1\<lparr>stats := increase_discarded_rasterlines (stats s1)\<rparr>)
      else
        let add_x = (end_data - start_data0) / (end_x - start_x);
            start_xi0 = column_for (clamping_method P) start_x;
            delta0 = distance_to_column_anchor (clamping_method P) start_x;
            delta_to_anchor =
              (if start_xi0 < 0 then delta0 + real_of_int (- start_xi0) else delta0);
            start_xi = (if start_xi0 < 0 then 0 else start_xi0);
            is_clamped0 = (start_xi0 < 0);
            start_data1 = start_data0 + add_x * delta_to_anchor;
            end_xi0 = u32 (column_for (clamping_method P) end_x);
            end_xi =
              (if end_xi0 > u32 (ibuf_x (image_buffer s1))
               then u32 (ibuf_x (image_buffer s1)) else end_xi0);
            is_clamped =
              (if end_xi0 > u32 (ibuf_x (image_buffer s1)) then True else is_clamped0);
            s2 = (if is_clamped
                  then s1\<lparr>stats := increase_clamped_rasterlines (stats s1)\<rparr> else s1)
        in (Some \<lparr>rl_y = u32 y, rl_start_x = u32 start_xi, rl_end_x = end_xi,
                   start_data = start_data1, delta_step = add_x\<rparr>, s2))"

text \<open>
  The body shared by the two \<open>for\<close> loops of \<open>rasterize_triangle\<close>, without the
  advance of the edges. \<open>scanline_rasterline\<close> is its \<open>std::optional\<close> rasterline:
  the result of \<open>clamped_rasterline\<close> when row \<open>v\<close> is inside the buffer, none
  otherwise. \<open>scanline_row\<close> appends it when there is one.
\<close>

definition scanline_rasterline ::
  "'v Pipeline \<Rightarrow> int \<Rightarrow> VertexOutInterface \<Rightarrow> VertexOutInterface \<Rightarrow> Rasterizer
     \<Rightarrow> Rasterline option \<times> Rasterizer" where
  "scanline_rasterline P v left right s =
     (if v \<ge> 0 \<and> v < ibuf_y (image_buffer s) then
        clamped_rasterline P v (fst (coord left)) (fst (coord right))
          (data left) (data right) s
      else (None, s))"

definition scanline_row ::
  "'v Pipeline \<Rightarrow> int \<Rightarrow> VertexOutInterface \<Rightarrow> VertexOutInterface \<Rightarrow> Rasterizer
     \<Rightarrow> Rasterizer" where
  "scanline_row P v left right s =
     (case scanline_rasterline P v left right s of
        (Some rasterline, s1) \<Rightarrow> append P rasterline s1
      | (None, s1) \<Rightarrow> s1)"

text \<open>
  \<open>for (; v < bound; v++)\<close> with that body, followed by \<open>left += left_add\<close> and
  \<open>right += right_add\<close>. The result holds the values of \<open>v\<close>, \<open>left\<close> and \<open>right\<close>
  after the loop.
\<close>

function scanline_loop ::
  "'v Pipeline \<Rightarrow> VertexOutInterface \<Rightarrow> VertexOutInterface \<Rightarrow> int \<Rightarrow> int
     \<Rightarrow> VertexOutInterface \<Rightarrow> VertexOutInterface \<Rightarrow> Rasterizer
     \<Rightarrow> int \<times> VertexOutInterface \<times> VertexOutInterface \<times> Rasterizer" where
  "scanline_loop P left_add right_add bound v left right s =
     (if v < bound then
        scanline_loop P left_add right_add bound (v + 1)
          (operator_add_assign left left_add) (operator_add_assign right right_add)
          (scanline_row P v left right s)
      else (v, left, right, s))"
  by pat_completeness auto
termination
  by (relation "measure (\<lambda>(P, la, ra, bound, v, l, r, s). nat (bound - v))") auto

declare scanline_loop.simps [simp del]

definition calc_vertex_output_data ::
  "VertexOutInterface \<Rightarrow> VertexOutInterface \<Rightarrow> VertexOutInterface" where
  "calc_vertex_output_data from_v to_v =
     (let num_rasterlines = snd (coord to_v) - snd (coord from_v) in
      if num_rasterlines = 0 then operator_sub to_v from_v
      else operator_div (operator_sub to_v from_v) num_rasterlines)"

text \<open>
  \<open>order_triangle_vertices\<close>. The source sorts pointers into \<open>vertex_out\<close>; a pointer
  is the index of its element. The \<open>BLI_assert\<close> lines, here and elsewhere, are checks
  of debug builds and have no counterpart.
\<close>

definition order_triangle_vertices :: "VertexOutInterface list \<Rightarrow> nat \<times> nat \<times> nat" where
  "order_triangle_vertices vertex_out =
     (let vy = (\<lambda>i. snd (coord (vertex_out ! i)));
          sorted0 = fold (\<lambda>i m. if vy i < vy m then i else m) [1, 2] 0;
          sorted2 = fold (\<lambda>i m. if vy i > vy m then i else m) [1, 2] 0
      in if vy sorted0 = vy sorted2 then (0, 1, 2)
         else
           (case filter (\<lambda>i. sorted0 \<noteq> i \<and> sorted2 \<noteq> i) [0, 1, 2] of
              [] \<Rightarrow> (sorted0, 0, sorted2)
            | i # _ \<Rightarrow> (sorted0, i, sorted2)))"

text \<open>
  \<open>rasterize_triangle\<close>. \<open>left\<close> and \<open>right\<close> are copies, so the array is never
  written and a dereferenced pointer is the element at its index. A variable that the
  source assigns twice has a numbered name per assignment. The debug \<open>printf\<close> is
  left out.
\<close>

definition rasterize_triangle ::
  "'v Pipeline \<Rightarrow> VertexOutInterface list \<Rightarrow> Rasterizer \<Rightarrow> Rasterizer" where
  "rasterize_triangle P vertex_out s =
     (case order_triangle_vertices vertex_out of (i0, i1, i2) \<Rightarrow>
      let cm = clamping_method P;
          sv0 = vertex_out ! i0; sv1 = vertex_out ! i1; sv2 = vertex_out ! i2;
          min_v = scanline_for cm (snd (coord sv0));
          mid_v = scanline_for cm (snd (coord sv1));
          max_v = scanline_for cm (snd (coord sv2)) - 1;
          left0 = sv0; right0 = sv0;
          left_target = (if fst (coord sv1) < fst (coord sv2) then sv1 else sv2);
          right_target = (if fst (coord sv1) < fst (coord sv2) then sv2 else sv1);
          left_add0 = calc_vertex_output_data left0 left_target;
          right_add0 = calc_vertex_output_data right0 right_target;
          left_add = (if fst (coord right_add0) < fst (coord left_add0)
                      then right_add0 else left_add0);
          right_add = (if fst (coord right_add0) < fst (coord left_add0)
                       then left_add0 else right_add0);
          distance_to_minline_anchor_point =
            distance_to_scanline_anchor cm (snd (coord sv0));
          left1 = operator_add_assign left0
                    (operator_mul left_add distance_to_minline_anchor_point);
          right1 = operator_add_assign right0
                     (operator_mul right_add distance_to_minline_anchor_point)
      in
      (case scanline_loop P left_add right_add mid_v min_v left1 right1 s of
         (v, left2, right2, s1) \<Rightarrow>
         let distance_to_midline_anchor_point =
               distance_to_scanline_anchor cm (snd (coord sv1));
             distance_to_left = \<bar>fst (coord left2) - fst (coord sv1)\<bar>;
             distance_to_right = \<bar>fst (coord right2) - fst (coord sv1)\<bar>;
             new_add = calc_vertex_output_data sv1 sv2;
             new_edge = operator_add_assign sv1
                          (operator_mul new_add distance_to_midline_anchor_point);
             left3 = (if distance_to_left < distance_to_right then new_edge else left2);
             left_add3 = (if distance_to_left < distance_to_right then new_add else left_add);
             right3 = (if distance_to_left < distance_to_right then right2 else new_edge);
             right_add3 =
               (if distance_to_left < distance_to_right then right_add else new_add)
         in
         (case scanline_loop P left_add3 right_add3 max_v v left3 right3 s1 of
            (v', left4, right4, s2) \<Rightarrow> s2)))"

text \<open>
  The local \<open>triangle_not_visible\<close> of \<open>draw_triangle\<close>: all three coordinates on one
  side of the buffer. The two \<open>>=\<close> tests are written with the exact width and height.
  The source converts these \<open>int\<close>s to \<open>float\<close> first, which changes nothing up to
  \<open>2 ^ 24\<close>; above, the conversion is monotonic, so float coordinates that pass the
  exact test pass the test of the source as well.
\<close>

definition triangle_not_visible :: "VertexOutInterface list \<Rightarrow> ImBuf \<Rightarrow> bool" where
  "triangle_not_visible vertex_out ib =
     (let p1_out = vertex_out ! 0; p2_out = vertex_out ! 1; p3_out = vertex_out ! 2 in
      (fst (coord p1_out) < 0 \<and> fst (coord p2_out) < 0 \<and> fst (coord p3_out) < 0) \<or>
      (snd (coord p1_out) < 0 \<and> snd (coord p2_out) < 0 \<and> snd (coord p3_out) < 0) \<or>
      (fst (coord p1_out) \<ge> real_of_int (ibuf_x ib) \<and>
       fst (coord p2_out) \<ge> real_of_int (ibuf_x ib) \<and>
       fst (coord p3_out) \<ge> real_of_int (ibuf_x ib)) \<or>
      (snd (coord p1_out) \<ge> real_of_int (ibuf_y ib) \<and>
       snd (coord p2_out) \<ge> real_of_int (ibuf_y ib) \<and>
       snd (coord p3_out) \<ge> real_of_int (ibuf_y ib)))"

definition draw_triangle :: "'v Pipeline \<Rightarrow> 'v \<Rightarrow> 'v \<Rightarrow> 'v \<Rightarrow> Rasterizer \<Rightarrow> Rasterizer" where
  "draw_triangle P p1 p2 p3 s =
     (let s1 = s\<lparr>stats := increase_triangles (stats s)\<rparr>;
          vertex_out = [vertex_shader P p1, vertex_shader P p2, vertex_shader P p3]
      in if triangle_not_visible vertex_out (image_buffer s1)
         then s1\<lparr>stats := increase_discarded_triangles (stats s1)\<rparr>
         else rasterize_triangle P vertex_out s1)"

text \<open>
  The constructor \<open>Rasterizer(ImBuf *image_buffer)\<close>. It builds \<open>rasterlines_\<close> by
  \<open>Rasterlines() : buffer(BufferSize)\<close>, the size constructor of the vector, which
  leaves \<open>BufferSize\<close> default-constructed elements in the buffer, as that of
  \<open>std::vector\<close> does. \<open>Rasterline() = default\<close> initialises no member, so these
  elements are one arbitrary rasterline, the parameter \<open>default_rasterline\<close>.
  Modelled from the spec: the counters are reset at construction.
\<close>

definition empty_stats :: Statistics where
  "empty_stats =
     \<lparr>triangles = 0, discarded_triangles = 0, rasterlines = 0,
      discarded_rasterlines = 0, clamped_rasterlines = 0, flushes = 0\<rparr>"

definition new_rasterizer :: "'v Pipeline \<Rightarrow> Rasterline \<Rightarrow> ImBuf \<Rightarrow> Rasterizer" where
  "new_rasterizer P default_rasterline ib =
     \<lparr>rasterlines_buffer = replicate (nat (RasterlinesSize P)) default_rasterline,
      image_buffer = ib, stats = empty_stats\<rparr>"

subsection \<open>Sequences of calls\<close>

datatype 'v call = DrawTriangle 'v 'v 'v | Flush

fun run_call :: "'v Pipeline \<Rightarrow> 'v call \<Rightarrow> Rasterizer \<Rightarrow> Rasterizer" where
  "run_call P (DrawTriangle p1 p2 p3) s = draw_triangle P p1 p2 p3 s"
| "run_call P Flush s = flush P s"

definition run_calls :: "'v Pipeline \<Rightarrow> 'v call list \<Rightarrow> Rasterizer \<Rightarrow> Rasterizer" where
  "run_calls P cs s = fold (run_call P) cs s"

subsection \<open>Concrete inputs\<close>

text \<open>
  A pipeline for concrete inputs: the vertex shader passes a coordinate through with
  payload 1, the fragment shader writes the payload to three channels and 1 to the
  fourth, as in the header's example.
\<close>

definition example_pipeline :: "int \<Rightarrow> float2 Pipeline" where
  "example_pipeline n =
     \<lparr>vertex_shader = (\<lambda>p. \<lparr>coord = p, data = 1\<rparr>),
      fragment_shader = (\<lambda>d. (d, d, d, 1)),
      RasterlinesSize = n,
      clamping_method = CenterPixelClampingMethod\<rparr>"

text \<open>
  A rasterizer with no pending rasterline, as a flush leaves it, all counters at zero and
  a black image of the given width and height.
\<close>

definition example_rasterizer :: "int \<Rightarrow> int \<Rightarrow> Rasterizer" where
  "example_rasterizer w h =
     \<lparr>rasterlines_buffer = [],
      image_buffer = \<lparr>ibuf_x = w, ibuf_y = h, channels = 4, rect_float = (\<lambda>i. 0)\<rparr>,
      stats = empty_stats\<rparr>"

subsection \<open>The rasterline invariant of the data model\<close>

text \<open>
  The invariant as the spec words it, for comparison with the code:
  \<open>0 <= row < buffer_height\<close> and \<open>0 <= start_col < end_col <= buffer_width\<close>. Row
  and columns are unsigned, so the two lower bounds hold by type.
\<close>

definition rasterline_invariant :: "ImBuf \<Rightarrow> Rasterline \<Rightarrow> bool" where
  "rasterline_invariant ib rl =
     (int (rl_y rl) < ibuf_y ib \<and> rl_start_x rl < rl_end_x rl \<and>
      int (rl_end_x rl) \<le> ibuf_x ib)"


section \<open>Properties\<close>

subsection \<open>Conversion of an int to float\<close>

lemma significand_shift_small: "a < 2 ^ 24 \<Longrightarrow> significand_shift a = 0"
  by (subst significand_shift.simps) simp

lemma float_of_int_exact:
  assumes "\<bar>i\<bar> \<le> 2 ^ 24"
  shows "float_of_int i = real_of_int i"
proof (cases "nat \<bar>i\<bar> < 2 ^ 24")
  case True
  then have "float_of_int i = real_of_int (sgn i * \<bar>i\<bar>)"
    by (simp add: float_of_int_def significand_shift_small)
  then show ?thesis
    by (simp add: mult_sgn_abs)
next
  case False
  then have a: "nat \<bar>i\<bar> = 16777216"
    using assms by simp
  have "significand_shift 16777216 = Suc (significand_shift 8388608)"
    by (subst significand_shift.simps) simp
  then have s: "significand_shift 16777216 = 1"
    by (simp add: significand_shift_small)
  have "float_of_int i = real_of_int (sgn i * int (nat \<bar>i\<bar>))"
    by (simp add: float_of_int_def a s)
  then show ?thesis
    by (simp add: mult_sgn_abs)
qed

subsection \<open>Invariants of the scanline loops\<close>

lemmas increase_defs =
  increase_triangles_def increase_discarded_triangles_def increase_rasterlines_def
  increase_discarded_rasterlines_def increase_clamped_rasterlines_def increase_flushes_def

lemmas eval_defs =
  draw_triangle_def triangle_not_visible_def rasterize_triangle_def
  order_triangle_vertices_def scanline_row_def scanline_rasterline_def
  clamped_rasterline_def append_def is_full_def calc_vertex_output_data_def
  operator_add_assign_def operator_sub_def operator_div_def operator_mul_def
  float2_add_def float2_sub_def float2_div_def float2_mul_def
  increase_defs example_pipeline_def example_rasterizer_def empty_stats_def
  CenterPixelClampingMethod_def round_half_down_def distance_to_anchor_def to_fract_def
  u32_def float_of_int_exact

lemma scanline_loop_invariant:
  assumes step: "\<And>v l r s. Q s \<Longrightarrow> Q (scanline_row P v l r s)"
    and "Q s"
    and "scanline_loop P la ra b v l r s = (v', l', r', s')"
  shows "Q s'"
proof -
  have "\<forall>v l r s. Q s \<longrightarrow> Q (scanline_row P v l r s)"
    using step by blast
  then show ?thesis
    using assms(2,3)
  proof (induction P la ra b v l r s rule: scanline_loop.induct)
    case (1 P la ra b v l r s)
    show ?case
    proof (cases "v < b")
      case True
      have "scanline_loop P la ra b (v + 1) (operator_add_assign l la)
              (operator_add_assign r ra) (scanline_row P v l r s) = (v', l', r', s')"
        using "1.prems"(3) True by (subst (asm) scanline_loop.simps) simp
      moreover have "Q (scanline_row P v l r s)"
        using "1.prems"(1,2) by blast
      ultimately show ?thesis
        using "1.IH" [OF True "1.prems"(1)] by blast
    next
      case False
      then show ?thesis
        using "1.prems" by (subst (asm) scanline_loop.simps) simp
    qed
  qed
qed



lemma scanline_loop_invariant_snd:
  assumes "\<And>v l r s. Q s \<Longrightarrow> Q (scanline_row P v l r s)" and "Q s"
  shows "Q (snd (snd (snd (scanline_loop P la ra b v l r s))))"
proof -
  obtain v' l' r' s' where e: "scanline_loop P la ra b v l r s = (v', l', r', s')"
    by (cases "scanline_loop P la ra b v l r s") auto
  have "Q s'"
    using assms e by (rule scanline_loop_invariant)
  then show ?thesis
    by (simp add: e)
qed



lemma Let_gen: "(\<And>x. Q (f x)) \<Longrightarrow> Q (Let a f)"
  by simp

lemma case_prod_proj: "Q (f (fst p) (snd p)) \<Longrightarrow> Q (case_prod f p)"
  by (simp add: case_prod_beta)

lemma rasterize_triangle_invariant:
  assumes step: "\<And>v l r s. Q s \<Longrightarrow> Q (scanline_row P v l r s)"
    and "Q s"
  shows "Q (rasterize_triangle P vo s)"
  unfolding rasterize_triangle_def
  by (intro Let_gen [where Q = Q] case_prod_proj [where Q = Q]
        scanline_loop_invariant_snd [where Q = Q] assms)

lemma flush_triangles: "triangles (stats (flush P s)) = triangles (stats s)"
  by (simp add: flush_def increase_defs)

lemma append_triangles: "triangles (stats (append P rl s)) = triangles (stats s)"
  by (simp add: append_def Let_def flush_triangles)

lemma clamped_rasterline_triangles:
  "triangles (stats (snd (clamped_rasterline P y sx ex sd ed s))) = triangles (stats s)"
  by (simp add: clamped_rasterline_def Let_def increase_defs)

lemma scanline_rasterline_triangles:
  "triangles (stats (snd (scanline_rasterline P v l r s))) = triangles (stats s)"
  by (simp add: scanline_rasterline_def clamped_rasterline_triangles)

lemma scanline_row_triangles:
  "triangles (stats (scanline_row P v l r s)) = triangles (stats s)"
proof (cases "scanline_rasterline P v l r s")
  case (Pair res s1)
  then have "triangles (stats s1) = triangles (stats s)"
    using scanline_rasterline_triangles [of P v l r s] by simp
  with Pair show ?thesis
    by (cases res) (simp_all add: scanline_row_def append_triangles)
qed

subsection \<open>Counting triangles\<close>

text \<open>
  Claim C9. Every call of \<open>draw_triangle\<close> adds exactly one to the counter of
  triangles seen, whether the triangle is then discarded by the visibility test or
  rasterized: the counter is raised first and nothing after it changes it.
\<close>

theorem draw_triangle_increases_triangles:
  "triangles (stats (draw_triangle P p1 p2 p3 s)) = triangles (stats s) + 1"
proof -
  let ?s1 = "s\<lparr>stats := increase_triangles (stats s)\<rparr>"
  let ?vo = "[vertex_shader P p1, vertex_shader P p2, vertex_shader P p3]"
  have s1: "triangles (stats ?s1) = triangles (stats s) + 1"
    by (simp add: increase_triangles_def)
  show ?thesis
  proof (cases "triangle_not_visible ?vo (image_buffer ?s1)")
    case True
    then have "draw_triangle P p1 p2 p3 s =
        ?s1\<lparr>stats := increase_discarded_triangles (stats ?s1)\<rparr>"
      unfolding draw_triangle_def Let_def by (rule if_P)
    then show ?thesis
      by (simp add: increase_defs)
  next
    case False
    then have "draw_triangle P p1 p2 p3 s = rasterize_triangle P ?vo ?s1"
      unfolding draw_triangle_def Let_def by (rule if_not_P)
    moreover have "triangles (stats (rasterize_triangle P ?vo ?s1)) = triangles (stats s) + 1"
      by (rule rasterize_triangle_invariant
            [where Q = "\<lambda>t. triangles (stats t) = triangles (stats s) + 1"])
         (simp_all only: scanline_row_triangles s1)
    ultimately show ?thesis
      by simp
  qed
qed

subsection \<open>Arithmetic of the vertex stage interface\<close>

text \<open>
  Claim C2. The claim asks that \<open>(r * s).coord\<close> is \<open>r.coord * s\<close> and
  \<open>(r * s).data\<close> is \<open>r.data * s\<close>. The code computes both into \<open>result\<close> and
  returns \<open>*this\<close>: for the record with coordinate \<open>(1, 2)\<close> and payload \<open>3\<close> and
  the scalar \<open>2\<close> the product is the record itself, with neither field scaled.
\<close>

theorem operator_mul_returns_this:
  "operator_mul \<lparr>coord = (1, 2), data = 3\<rparr> 2 = \<lparr>coord = (1, 2), data = 3\<rparr> \<and>
   coord (operator_mul \<lparr>coord = (1, 2), data = 3\<rparr> 2) \<noteq> float2_mul (1, 2) 2 \<and>
   data (operator_mul \<lparr>coord = (1, 2), data = 3\<rparr> 2) \<noteq> 3 * 2"
  by (simp add: operator_mul_def float2_mul_def)

lemma operator_others:
  "coord (operator_add_assign r q) = float2_add (coord r) (coord q) \<and>
   data (operator_add_assign r q) = data r + data q \<and>
   coord (operator_sub r q) = float2_sub (coord r) (coord q) \<and>
   data (operator_sub r q) = data r - data q \<and>
   coord (operator_div r d) = float2_div (coord r) d \<and>
   data (operator_div r d) = data r / d"
  by (simp add: operator_add_assign_def operator_sub_def operator_div_def)

subsection \<open>Clamped rasterlines\<close>

lemma clamped_rasterline_None_iff:
  "(fst (clamped_rasterline P y start_x end_x sd ed s) = None) =
     (start_x \<ge> end_x \<or> end_x < 0 \<or> start_x \<ge> float_of_int (ibuf_x (image_buffer s)))"
  by (simp add: clamped_rasterline_def Let_def)

text \<open>
  Claim C6, as amended. \<open>clamped_rasterline\<close> returns no rasterline exactly when
  \<open>start_x >= end_x\<close>, or \<open>end_x < 0\<close>, or \<open>start_x\<close> is at least the buffer width
  as converted to \<open>float\<close>, and it adds one to the counter of discarded rasterlines
  exactly in that case; in every other case it returns a rasterline and leaves that
  counter alone. For a width of at most \<open>2 ^ 24\<close> the converted width is the width.
\<close>

theorem clamped_rasterline_discards:
  "(fst (clamped_rasterline P y start_x end_x sd ed s) = None) =
     (start_x \<ge> end_x \<or> end_x < 0 \<or> start_x \<ge> float_of_int (ibuf_x (image_buffer s))) \<and>
   discarded_rasterlines (stats (snd (clamped_rasterline P y start_x end_x sd ed s))) =
     discarded_rasterlines (stats s) +
       (if start_x \<ge> end_x \<or> end_x < 0 \<or> start_x \<ge> float_of_int (ibuf_x (image_buffer s))
        then 1 else 0) \<and>
   (\<bar>ibuf_x (image_buffer s)\<bar> \<le> 2 ^ 24 \<longrightarrow>
      float_of_int (ibuf_x (image_buffer s)) = real_of_int (ibuf_x (image_buffer s)))"
proof -
  have "(fst (clamped_rasterline P y start_x end_x sd ed s) = None) =
     (start_x \<ge> end_x \<or> end_x < 0 \<or> start_x \<ge> float_of_int (ibuf_x (image_buffer s)))"
    by (rule clamped_rasterline_None_iff)
  moreover have
    "discarded_rasterlines (stats (snd (clamped_rasterline P y start_x end_x sd ed s))) =
     discarded_rasterlines (stats s) +
       (if start_x \<ge> end_x \<or> end_x < 0 \<or> start_x \<ge> float_of_int (ibuf_x (image_buffer s))
        then 1 else 0)"
    by (simp add: clamped_rasterline_def Let_def increase_defs)
  ultimately show ?thesis
    using float_of_int_exact by blast
qed

theorem clamped_rasterline_discards_witness:
  "\<bar>ibuf_x (image_buffer (example_rasterizer 8 8))\<bar> \<le> 2 ^ 24 \<and>
   float_of_int (ibuf_x (image_buffer (example_rasterizer 8 8))) = 8 \<and>
   fst (clamped_rasterline (example_pipeline 4096) 0 8 10 0 1 (example_rasterizer 8 8)) = None \<and>
   fst (clamped_rasterline (example_pipeline 4096) 0 7 10 0 1 (example_rasterizer 8 8)) \<noteq> None"
proof -
  have w: "ibuf_x (image_buffer (example_rasterizer 8 8)) = 8"
    by (simp add: example_rasterizer_def)
  have h: "\<bar>ibuf_x (image_buffer (example_rasterizer 8 8))\<bar> \<le> 2 ^ 24"
    by (simp add: w)
  note t8 = clamped_rasterline_discards [of "example_pipeline 4096" 0 8 10 0 1 "example_rasterizer 8 8"]
  note t7 = clamped_rasterline_discards [of "example_pipeline 4096" 0 7 10 0 1 "example_rasterizer 8 8"]
  have f: "float_of_int (ibuf_x (image_buffer (example_rasterizer 8 8))) = 8"
    using t8 h by (simp add: w)
  have a: "fst (clamped_rasterline (example_pipeline 4096) 0 8 10 0 1 (example_rasterizer 8 8))
      = None"
    using t8 by (simp add: f)
  have b: "fst (clamped_rasterline (example_pipeline 4096) 0 7 10 0 1 (example_rasterizer 8 8))
      \<noteq> None"
    using t7 by (simp add: f)
  show ?thesis
    using h f a b by blast
qed

text \<open>
  The claim as stated, with the width itself in the third test, fails for a width above
  \<open>2 ^ 24\<close>: the width \<open>2 ^ 24 + 1\<close> converts to the float \<open>2 ^ 24\<close>, so the run from
  \<open>start_x = 2 ^ 24\<close> to \<open>end_x = 2 ^ 24 + 2\<close> is discarded, although \<open>start_x\<close> is
  below \<open>end_x\<close> and below the width and \<open>end_x\<close> is not negative.
\<close>

theorem clamped_rasterline_discards_counterexample:
  "fst (clamped_rasterline (example_pipeline 4096) 0 16777216 16777218 0 1
      (example_rasterizer 16777217 8)) = None \<and>
   discarded_rasterlines (stats (snd (clamped_rasterline (example_pipeline 4096) 0
      16777216 16777218 0 1 (example_rasterizer 16777217 8)))) = 1 \<and>
   \<not> ((16777216 :: real) \<ge> 16777218 \<or> (16777218 :: real) < 0 \<or>
      (16777216 :: real) \<ge> real_of_int (ibuf_x (image_buffer (example_rasterizer 16777217 8))))"
proof -
  have "significand_shift 16777217 = Suc (significand_shift 8388608)"
    by (subst significand_shift.simps) simp
  then have s: "significand_shift 16777217 = 1"
    by (simp add: significand_shift_small)
  have f: "float_of_int 16777217 = 16777216"
    by (simp add: float_of_int_def s)
  show ?thesis
    by (simp add: clamped_rasterline_def Let_def f increase_defs example_rasterizer_def
        empty_stats_def)
qed

text \<open>
  Claim C7. A call of \<open>clamped_rasterline\<close> adds at most one to the counter of
  clamped rasterlines: exactly one when it returns a rasterline of which the start
  column was pinned to 0 or the end column was pinned to the width (or both), nothing
  otherwise. With \<open>start_x = -5\<close> and \<open>end_x = 10\<close> in a buffer of width 8 both ends
  are pinned and the counter goes from 0 to 1.
\<close>

theorem clamped_rasterline_clamped_once:
  "clamped_rasterlines (stats (snd (clamped_rasterline P y start_x end_x sd ed s))) =
     clamped_rasterlines (stats s) +
       (if fst (clamped_rasterline P y start_x end_x sd ed s) \<noteq> None \<and>
           (column_for (clamping_method P) start_x < 0 \<or>
            u32 (column_for (clamping_method P) end_x) > u32 (ibuf_x (image_buffer s)))
        then 1 else 0)"
  by (simp add: clamped_rasterline_def Let_def increase_defs)

theorem clamped_rasterline_clamped_once_witness:
  "column_for (clamping_method (example_pipeline 4096)) (- 5) < 0 \<and>
   u32 (column_for (clamping_method (example_pipeline 4096)) 10) >
     u32 (ibuf_x (image_buffer (example_rasterizer 8 8))) \<and>
   clamped_rasterlines (stats (snd (clamped_rasterline (example_pipeline 4096) 0 (- 5) 10 0 1
      (example_rasterizer 8 8)))) = 1"
  using clamped_rasterline_clamped_once
    [of "example_pipeline 4096" 0 "- 5" 10 0 1 "example_rasterizer 8 8"]
  by (simp add: clamped_rasterline_None_iff example_pipeline_def example_rasterizer_def
      CenterPixelClampingMethod_def round_half_down_def to_fract_def u32_def empty_stats_def
      float_of_int_exact)


subsection \<open>Triangles off the buffer\<close>

lemma draw_triangle_not_visible:
  assumes "triangle_not_visible [vertex_shader P p1, vertex_shader P p2, vertex_shader P p3]
             (image_buffer s)"
  shows "draw_triangle P p1 p2 p3 s =
           s\<lparr>stats := increase_discarded_triangles (increase_triangles (stats s))\<rparr>"
  using assms by (simp add: draw_triangle_def Let_def)

text \<open>
  Claim C8. When the three outputs of the vertex stage all have \<open>x < 0\<close>, or all
  have \<open>x\<close> at least the width, or all have \<open>y < 0\<close>, or all have \<open>y\<close> at least
  the height, \<open>draw_triangle\<close> discards the triangle before scan conversion: the
  pending rasterlines and the rasterline counters are unchanged (no rasterline is
  produced), the discarded-triangle counter grows by exactly one, and the image buffer
  is unchanged (no pixel is written).
\<close>

theorem draw_triangle_discards_offscreen:
  assumes "(fst (coord (vertex_shader P p1)) < 0 \<and> fst (coord (vertex_shader P p2)) < 0 \<and>
            fst (coord (vertex_shader P p3)) < 0) \<or>
           (fst (coord (vertex_shader P p1)) \<ge> real_of_int (ibuf_x (image_buffer s)) \<and>
            fst (coord (vertex_shader P p2)) \<ge> real_of_int (ibuf_x (image_buffer s)) \<and>
            fst (coord (vertex_shader P p3)) \<ge> real_of_int (ibuf_x (image_buffer s))) \<or>
           (snd (coord (vertex_shader P p1)) < 0 \<and> snd (coord (vertex_shader P p2)) < 0 \<and>
            snd (coord (vertex_shader P p3)) < 0) \<or>
           (snd (coord (vertex_shader P p1)) \<ge> real_of_int (ibuf_y (image_buffer s)) \<and>
            snd (coord (vertex_shader P p2)) \<ge> real_of_int (ibuf_y (image_buffer s)) \<and>
            snd (coord (vertex_shader P p3)) \<ge> real_of_int (ibuf_y (image_buffer s)))"
  shows "rasterlines_buffer (draw_triangle P p1 p2 p3 s) = rasterlines_buffer s \<and>
         image_buffer (draw_triangle P p1 p2 p3 s) = image_buffer s \<and>
         discarded_triangles (stats (draw_triangle P p1 p2 p3 s)) =
           discarded_triangles (stats s) + 1 \<and>
         triangles (stats (draw_triangle P p1 p2 p3 s)) = triangles (stats s) + 1 \<and>
         rasterlines (stats (draw_triangle P p1 p2 p3 s)) = rasterlines (stats s) \<and>
         discarded_rasterlines (stats (draw_triangle P p1 p2 p3 s)) =
           discarded_rasterlines (stats s) \<and>
         clamped_rasterlines (stats (draw_triangle P p1 p2 p3 s)) =
           clamped_rasterlines (stats s) \<and>
         flushes (stats (draw_triangle P p1 p2 p3 s)) = flushes (stats s)"
proof -
  have "triangle_not_visible [vertex_shader P p1, vertex_shader P p2, vertex_shader P p3]
          (image_buffer s)"
    using assms unfolding triangle_not_visible_def Let_def
    by (elim disjE) simp_all
  then have "draw_triangle P p1 p2 p3 s =
          s\<lparr>stats := increase_discarded_triangles (increase_triangles (stats s))\<rparr>"
    by (rule draw_triangle_not_visible)
  then show ?thesis
    by (simp add: increase_defs)
qed

theorem draw_triangle_discards_offscreen_witness:
  "fst (coord (vertex_shader (example_pipeline 4096) (- 3, 0))) < 0 \<and>
   fst (coord (vertex_shader (example_pipeline 4096) (- 1, 4))) < 0 \<and>
   fst (coord (vertex_shader (example_pipeline 4096) (- 2, 7))) < 0 \<and>
   rasterlines_buffer (draw_triangle (example_pipeline 4096) (- 3, 0) (- 1, 4) (- 2, 7)
     (example_rasterizer 8 8)) = [] \<and>
   discarded_triangles (stats (draw_triangle (example_pipeline 4096) (- 3, 0) (- 1, 4) (- 2, 7)
     (example_rasterizer 8 8))) = 1 \<and>
   rasterlines (stats (draw_triangle (example_pipeline 4096) (- 3, 0) (- 1, 4) (- 2, 7)
     (example_rasterizer 8 8))) = 0"
proof -
  have h: "fst (coord (vertex_shader (example_pipeline 4096) (- 3, 0))) < 0 \<and>
           fst (coord (vertex_shader (example_pipeline 4096) (- 1, 4))) < 0 \<and>
           fst (coord (vertex_shader (example_pipeline 4096) (- 2, 7))) < 0"
    by (simp add: example_pipeline_def)
  show ?thesis
    using h draw_triangle_discards_offscreen
      [of "example_pipeline 4096" "(- 3, 0)" "(- 1, 4)" "(- 2, 7)" "example_rasterizer 8 8"]
    by (simp add: example_rasterizer_def empty_stats_def)
qed

subsection \<open>The rasterline buffer\<close>

lemma flush_buffer: "rasterlines_buffer (flush P s) = []"
  by (simp add: flush_def)

lemma append_below:
  assumes "0 < RasterlinesSize P"
    and "int (length (rasterlines_buffer s)) < RasterlinesSize P"
  shows "int (length (rasterlines_buffer (append P rl s))) < RasterlinesSize P"
  using assms by (simp add: append_def Let_def is_full_def flush_buffer)

lemma clamped_rasterline_buffer:
  "rasterlines_buffer (snd (clamped_rasterline P y sx ex sd ed s)) = rasterlines_buffer s"
  by (simp add: clamped_rasterline_def Let_def)

lemma scanline_rasterline_buffer:
  "rasterlines_buffer (snd (scanline_rasterline P v l r s)) = rasterlines_buffer s"
  by (simp add: scanline_rasterline_def clamped_rasterline_buffer)

lemma scanline_row_below:
  assumes "0 < RasterlinesSize P"
    and "int (length (rasterlines_buffer s)) < RasterlinesSize P"
  shows "int (length (rasterlines_buffer (scanline_row P v l r s))) < RasterlinesSize P"
proof (cases "scanline_rasterline P v l r s")
  case (Pair res s1)
  then have "rasterlines_buffer s1 = rasterlines_buffer s"
    using scanline_rasterline_buffer [of P v l r s] by simp
  with Pair assms show ?thesis
    by (cases res) (simp_all add: scanline_row_def append_below)
qed

lemma draw_triangle_below:
  assumes "0 < RasterlinesSize P"
    and "int (length (rasterlines_buffer s)) < RasterlinesSize P"
  shows "int (length (rasterlines_buffer (draw_triangle P p1 p2 p3 s))) < RasterlinesSize P"
proof -
  let ?s1 = "s\<lparr>stats := increase_triangles (stats s)\<rparr>"
  have "int (length (rasterlines_buffer (rasterize_triangle P vo ?s1))) < RasterlinesSize P"
    for vo
    by (rule rasterize_triangle_invariant
          [where Q = "\<lambda>t. int (length (rasterlines_buffer t)) < RasterlinesSize P"])
       (simp_all add: scanline_row_below assms)
  then show ?thesis
    using assms(2) by (simp add: draw_triangle_def Let_def)
qed

lemma run_call_below:
  assumes "0 < RasterlinesSize P"
    and "int (length (rasterlines_buffer s)) < RasterlinesSize P"
  shows "int (length (rasterlines_buffer (run_call P c s))) < RasterlinesSize P"
  using assms by (cases c) (simp_all add: draw_triangle_below flush_buffer)

lemma run_calls_below:
  assumes "0 < RasterlinesSize P"
    and "int (length (rasterlines_buffer s)) < RasterlinesSize P"
  shows "int (length (rasterlines_buffer (run_calls P cs s))) < RasterlinesSize P"
  using assms(2) unfolding run_calls_def
  by (induction cs arbitrary: s) (simp_all add: run_call_below assms(1))

text \<open>
  From a state with fewer pending rasterlines than the capacity \<open>RasterlinesSize\<close>, as
  any flush leaves it when the capacity is positive, the number of pending rasterlines
  stays below the capacity after every call of a sequence of \<open>draw_triangle\<close> and
  \<open>flush\<close> calls: \<open>append\<close> flushes as soon as the size reaches the capacity.
\<close>

lemma run_calls_within_capacity:
  assumes "0 < RasterlinesSize P"
    and "int (length (rasterlines_buffer s)) < RasterlinesSize P"
  shows "\<forall>n. int (length (rasterlines_buffer (run_calls P (take n cs) s)))
           \<le> RasterlinesSize P"
proof
  fix n
  have "int (length (rasterlines_buffer (run_calls P (take n cs) s))) < RasterlinesSize P"
    using assms by (rule run_calls_below)
  then show "int (length (rasterlines_buffer (run_calls P (take n cs) s)))
           \<le> RasterlinesSize P"
    by simp
qed

lemma fold_append_no_flush:
  assumes "int (length (rasterlines_buffer s) + length rls) < RasterlinesSize P"
  shows "fold (append P) rls s = s\<lparr>rasterlines_buffer := rasterlines_buffer s @ rls\<rparr>"
  using assms
proof (induction rls arbitrary: s)
  case Nil
  then show ?case by simp
next
  case (Cons a rls)
  have a: "append P a s = s\<lparr>rasterlines_buffer := rasterlines_buffer s @ [a]\<rparr>"
    using Cons.prems by (simp add: append_def Let_def is_full_def)
  have "fold (append P) rls (append P a s) =
          (append P a s)\<lparr>rasterlines_buffer := rasterlines_buffer (append P a s) @ rls\<rparr>"
    by (rule Cons.IH) (use Cons.prems in \<open>simp add: a\<close>)
  then show ?case
    by (simp add: a)
qed

lemma fold_append_fill:
  assumes "rasterlines_buffer s = []"
    and "int (length rls) = RasterlinesSize P"
    and "0 < RasterlinesSize P"
  shows "fold (append P) rls s =
           s\<lparr>stats := increase_flushes (stats s),
              image_buffer := fold (render_rasterline P) rls (image_buffer s),
              rasterlines_buffer := []\<rparr>"
proof -
  from assms(2,3) have "rls \<noteq> []" by auto
  then obtain ys y where r: "rls = ys @ [y]"
    by (cases rls rule: rev_cases) auto
  have "int (length (rasterlines_buffer s) + length ys) < RasterlinesSize P"
    using assms(1,2) r by simp
  then have ys: "fold (append P) ys s = s\<lparr>rasterlines_buffer := ys\<rparr>"
    using fold_append_no_flush [of s ys P] assms(1) by simp
  show ?thesis
    using assms(2) by (simp add: r ys append_def Let_def is_full_def flush_def)
qed

text \<open>
  From an empty buffer, as a flush leaves it, appending exactly \<open>RasterlinesSize\<close>
  rasterlines (a positive number) through \<open>append\<close> flushes exactly once: after the
  last append the buffer is empty, the flush counter is one higher and the image buffer
  holds the rendering of these rasterlines in order, while after every shorter prefix
  the rasterlines are still pending, the flush counter is unchanged and nothing has been
  rendered.
\<close>

lemma fold_append_flushes_once:
  assumes "rasterlines_buffer s = []"
    and "int (length rls) = RasterlinesSize P"
    and "0 < RasterlinesSize P"
  shows "rasterlines_buffer (fold (append P) rls s) = [] \<and>
         flushes (stats (fold (append P) rls s)) = flushes (stats s) + 1 \<and>
         image_buffer (fold (append P) rls s) =
           fold (render_rasterline P) rls (image_buffer s) \<and>
         (\<forall>n < length rls.
            rasterlines_buffer (fold (append P) (take n rls) s) = take n rls \<and>
            flushes (stats (fold (append P) (take n rls) s)) = flushes (stats s) \<and>
            image_buffer (fold (append P) (take n rls) s) = image_buffer s)"
proof -
  have full: "fold (append P) rls s =
           s\<lparr>stats := increase_flushes (stats s),
              image_buffer := fold (render_rasterline P) rls (image_buffer s),
              rasterlines_buffer := []\<rparr>"
    using assms by (rule fold_append_fill)
  have part: "fold (append P) (take n rls) s = s\<lparr>rasterlines_buffer := take n rls\<rparr>"
    if "n < length rls" for n
  proof -
    have "int (length (rasterlines_buffer s) + length (take n rls)) < RasterlinesSize P"
      using that assms(1,2) by simp
    then show ?thesis
      using fold_append_no_flush [of s "take n rls" P] assms(1) by simp
  qed
  show ?thesis
    by (simp add: full part increase_flushes_def)
qed

text \<open>
  Claim C1. The claim has a newly constructed buffer behave as a flushed one: appending
  \<open>RasterlinesSize\<close> rasterlines flushes once and leaves the buffer empty. The
  constructor leaves \<open>RasterlinesSize\<close> default-constructed rasterlines in the buffer,
  so a new rasterizer is full before the first append, the first append takes the size
  beyond the capacity, and \<open>is_full\<close>, an equality, never holds again: with a capacity
  of 2, whatever the default rasterline is, two appends leave four rasterlines pending
  and the flush counter at zero.
\<close>

theorem new_rasterizer_never_flushes:
  "\<forall>d. is_full (example_pipeline 2)
          (new_rasterizer (example_pipeline 2) d (image_buffer (example_rasterizer 8 8))) \<and>
        length (rasterlines_buffer (fold (append (example_pipeline 2))
          [\<lparr>rl_y = 0, rl_start_x = 0, rl_end_x = 3, start_data = 1, delta_step = 0\<rparr>,
           \<lparr>rl_y = 1, rl_start_x = 0, rl_end_x = 2, start_data = 1, delta_step = 0\<rparr>]
          (new_rasterizer (example_pipeline 2) d (image_buffer (example_rasterizer 8 8)))))
          = 4 \<and>
        flushes (stats (fold (append (example_pipeline 2))
          [\<lparr>rl_y = 0, rl_start_x = 0, rl_end_x = 3, start_data = 1, delta_step = 0\<rparr>,
           \<lparr>rl_y = 1, rl_start_x = 0, rl_end_x = 2, start_data = 1, delta_step = 0\<rparr>]
          (new_rasterizer (example_pipeline 2) d (image_buffer (example_rasterizer 8 8)))))
          = 0"
  by (simp add: new_rasterizer_def append_def is_full_def example_pipeline_def empty_stats_def
      Let_def)

text \<open>
  Claim C3. The claim has the number of pending rasterlines at most the capacity at
  every point of any sequence of \<open>draw_triangle\<close> and \<open>flush\<close> calls. For the same
  reason as in claim C1 it is not: a new rasterizer of capacity 2 holds two
  default-constructed rasterlines, and after one \<open>draw_triangle\<close> of the triangle
  \<open>(0, 0)\<close>, \<open>(8, 0)\<close>, \<open>(0, 4)\<close>, which appends three rasterlines, it holds five,
  with no flush.
\<close>

theorem new_rasterizer_exceeds_capacity:
  "\<forall>d. RasterlinesSize (example_pipeline 2) = 2 \<and>
        length (rasterlines_buffer
          (new_rasterizer (example_pipeline 2) d (image_buffer (example_rasterizer 8 8)))) = 2 \<and>
        length (rasterlines_buffer (run_calls (example_pipeline 2)
          [DrawTriangle (0, 0) (8, 0) (0, 4)]
          (new_rasterizer (example_pipeline 2) d (image_buffer (example_rasterizer 8 8)))))
          = 5 \<and>
        flushes (stats (run_calls (example_pipeline 2)
          [DrawTriangle (0, 0) (8, 0) (0, 4)]
          (new_rasterizer (example_pipeline 2) d (image_buffer (example_rasterizer 8 8)))))
          = 0"
  by (simp add: run_calls_def new_rasterizer_def eval_defs Let_def scanline_loop.simps)

subsection \<open>Rendering a rasterline\<close>

lemma copy_v4_v4_apply:
  "copy_v4_v4 mem r a i = (if r \<le> i \<and> i < r + 4 then float4_at a (i - r) else mem i)"
proof (cases a)
  case (fields a0 a1 a2 a3)
  have "r \<le> i \<and> i < r + 4 \<longleftrightarrow> i = r \<or> i = r + 1 \<or> i = r + 2 \<or> i = r + 3"
    by arith
  then show ?thesis
    unfolding copy_v4_v4_def fields by auto
qed

lemma pixel_ptr_no_wrap:
  assumes "0 \<le> w" and "(int y * w + int e) * 4 \<le> 2 ^ 32" and "x < e"
  shows "u32 (int (u32 (int y * w + int x)) * 4) = (y * nat w + x) * 4"
proof -
  have nn: "0 \<le> int y * w + int x"
    using assms(1) by simp
  have lt: "(int y * w + int x) * 4 < 2 ^ 32"
    using assms(2,3) by simp
  then have lt1: "int y * w + int x < 2 ^ 32"
    using nn by simp
  have "u32 (int y * w + int x) = nat (int y * w + int x)"
    using nn lt1 by (simp add: u32_def)
  moreover have "u32 (int (nat (int y * w + int x)) * 4) = nat ((int y * w + int x) * 4)"
    using nn lt by (simp add: u32_def)
  moreover have "nat ((int y * w + int x) * 4) = (y * nat w + x) * 4"
    using assms(1) by (simp add: nat_add_distrib nat_mult_distrib)
  ultimately show ?thesis
    by simp
qed

lemma render_loop_dims:
  "ibuf_x (render_loop fs rl x d ib) = ibuf_x ib \<and>
   ibuf_y (render_loop fs rl x d ib) = ibuf_y ib \<and>
   channels (render_loop fs rl x d ib) = channels ib"
proof (induction fs rl x d ib rule: render_loop.induct)
  case (1 fs rl x d ib)
  show ?case
  proof (cases "x < rl_end_x rl")
    case True
    then show ?thesis
      using "1.IH" [OF True refl refl refl]
      by (subst (1 2 3) render_loop.simps) (simp add: Let_def)
  next
    case False
    then show ?thesis
      by (subst (1 2 3) render_loop.simps) simp
  qed
qed

lemma render_loop_cong:
  assumes "ibuf_x ib1 = ibuf_x ib2" and "rect_float ib1 = rect_float ib2"
  shows "rect_float (render_loop fs rl x d ib1) = rect_float (render_loop fs rl x d ib2)"
  using assms
proof (induction fs rl x d ib1 arbitrary: ib2 rule: render_loop.induct)
  case (1 fs rl x d ib1)
  show ?case
  proof (cases "x < rl_end_x rl")
    case True
    let ?p = "u32 (int (u32 (int (rl_y rl) * ibuf_x ib1 + int x)) * 4)"
    have "rect_float (render_loop fs rl (x + 1) (d + delta_step rl)
            (ib1\<lparr>rect_float := copy_v4_v4 (rect_float ib1) ?p (fs d)\<rparr>)) =
          rect_float (render_loop fs rl (x + 1) (d + delta_step rl)
            (ib2\<lparr>rect_float := copy_v4_v4 (rect_float ib2) ?p (fs d)\<rparr>))"
      by (rule "1.IH" [OF True refl refl refl]) (simp_all add: "1.prems")
    then show ?thesis
      using True "1.prems"(1)
      by (subst (1 2) render_loop.simps) (simp add: Let_def)
  next
    case False
    then show ?thesis
      using "1.prems"(2) by (subst (1 2) render_loop.simps) simp
  qed
qed

lemma render_loop_rect:
  assumes "0 \<le> ibuf_x ib"
    and "(int (rl_y rl) * ibuf_x ib + int (rl_end_x rl)) * 4 \<le> 2 ^ 32"
  shows "rect_float (render_loop fs rl x d ib) i =
     (if rl_y rl * nat (ibuf_x ib) + x \<le> i div 4 \<and>
         i div 4 < rl_y rl * nat (ibuf_x ib) + rl_end_x rl
      then float4_at (fs (d + real (i div 4 - (rl_y rl * nat (ibuf_x ib) + x)) * delta_step rl))
             (i mod 4)
      else rect_float ib i)"
  using assms
proof (induction fs rl x d ib rule: render_loop.induct)
  case (1 fs rl x d ib)
  let ?b = "rl_y rl * nat (ibuf_x ib)"
  show ?case
  proof (cases "x < rl_end_x rl")
    case False
    then show ?thesis
      by (subst render_loop.simps) simp
  next
    case True
    let ?p = "(?b + x) * 4"
    let ?ib' = "ib\<lparr>rect_float := copy_v4_v4 (rect_float ib) ?p (fs d)\<rparr>"
    have ptr: "u32 (int (u32 (int (rl_y rl) * ibuf_x ib + int x)) * 4) = ?p"
      using "1.prems" True by (rule pixel_ptr_no_wrap)
    have unf: "render_loop fs rl x d ib = render_loop fs rl (x + 1) (d + delta_step rl) ?ib'"
      using True by (subst render_loop.simps) (simp add: Let_def ptr)
    have ih: "rect_float (render_loop fs rl (x + 1) (d + delta_step rl) ?ib') i =
     (if ?b + (x + 1) \<le> i div 4 \<and> i div 4 < ?b + rl_end_x rl
      then float4_at (fs (d + delta_step rl + real (i div 4 - (?b + (x + 1))) * delta_step rl))
             (i mod 4)
      else rect_float ?ib' i)"
      using "1.IH" [OF True refl refl refl, unfolded ptr] "1.prems" by simp
    consider (later) "?b + (x + 1) \<le> i div 4" "i div 4 < ?b + rl_end_x rl"
      | (here) "i div 4 = ?b + x"
      | (outside) "i div 4 < ?b + x \<or> ?b + rl_end_x rl \<le> i div 4"
      by linarith
    then show ?thesis
    proof cases
      case later
      have "real (i div 4 - (?b + x)) = real (i div 4 - (?b + (x + 1))) + 1"
        using later(1) by (simp add: of_nat_diff)
      then have eq: "d + delta_step rl + real (i div 4 - (?b + (x + 1))) * delta_step rl =
                 d + real (i div 4 - (?b + x)) * delta_step rl"
        by (simp add: algebra_simps)
      have c1: "?b + (x + 1) \<le> i div 4 \<and> i div 4 < ?b + rl_end_x rl"
        using later by simp
      have c2: "?b + x \<le> i div 4 \<and> i div 4 < ?b + rl_end_x rl"
        using later by simp
      show ?thesis
        unfolding unf ih by (simp only: c1 c2 simp_thms if_True eq)
    next
      case here
      have "i = 4 * (i div 4) + i mod 4"
        by simp
      then have i: "i = ?p + i mod 4"
        unfolding here by (simp only: mult.commute)
      have "rect_float ?ib' i = float4_at (fs d) (i mod 4)"
        by (subst i) (simp add: copy_v4_v4_apply)
      moreover have "?b + x \<le> i div 4 \<and> i div 4 < ?b + rl_end_x rl"
        using here True by simp
      moreover have "\<not> (?b + (x + 1) \<le> i div 4 \<and> i div 4 < ?b + rl_end_x rl)"
        using here by simp
      moreover have "real (i div 4 - (?b + x)) = 0"
        using here by simp
      ultimately show ?thesis
        unfolding unf ih by simp
    next
      case outside
      define b where "b = ?b"
      define q where "q = i div 4"
      define m where "m = i mod 4"
      have "i = 4 * q + m" and "m < 4"
        unfolding q_def m_def by simp_all
      moreover have "q < b + x \<or> b + rl_end_x rl \<le> q"
        using outside unfolding b_def q_def .
      ultimately have "\<not> ((b + x) * 4 \<le> i \<and> i < (b + x) * 4 + 4)"
        using True by presburger
      then have n: "\<not> (?p \<le> i \<and> i < ?p + 4)"
        unfolding b_def .
      have sel: "rect_float ?ib' = copy_v4_v4 (rect_float ib) ?p (fs d)"
        by simp
      have f: "rect_float ?ib' i = rect_float ib i"
        unfolding sel copy_v4_v4_apply using n by (rule if_not_P)
      have n1: "\<not> (?b + (x + 1) \<le> i div 4 \<and> i div 4 < ?b + rl_end_x rl)"
        using outside by linarith
      have n2: "\<not> (?b + x \<le> i div 4 \<and> i div 4 < ?b + rl_end_x rl)"
        using outside True by linarith
      show ?thesis
        unfolding unf ih by (simp only: n1 n2 if_False f)
    qed
  qed
qed


lemma div_mod_4:
  fixes n k :: nat
  assumes "k < 4"
  shows "(n * 4 + k) div 4 = n \<and> (n * 4 + k) mod 4 = k"
  using assms by simp

text \<open>
  Claim C10, as amended. For a rasterline of row \<open>y\<close>, \<open>render_rasterline\<close> writes, for every
  column \<open>c\<close> of \<open>[start_x, end_x)\<close>, the four channels of the fragment at the float
  offsets \<open>(y * width + c) * 4 + k\<close>, \<open>k < 4\<close>, and no other cell of the float
  storage; width, height and channel count are unchanged, and the cells written do not
  depend on the channel count of the buffer, provided the width is not negative and
  \<open>(y * width + end_x) * 4 \<le> 2 ^ 32\<close>: the source computes the offset in \<open>uint32_t\<close>,
  and under this bound it does not wrap.
\<close>

theorem render_rasterline_writes:
  assumes "0 \<le> ibuf_x ib"
    and "(int (rl_y rl) * ibuf_x ib + int (rl_end_x rl)) * 4 \<le> 2 ^ 32"
  shows "(\<forall>c k. rl_start_x rl \<le> c \<and> c < rl_end_x rl \<and> k < 4 \<longrightarrow>
            rect_float (render_rasterline P rl ib) ((rl_y rl * nat (ibuf_x ib) + c) * 4 + k) =
              float4_at (fragment_shader P
                (start_data rl + real (c - rl_start_x rl) * delta_step rl)) k) \<and>
         (\<forall>i. \<not> (\<exists>c k. rl_start_x rl \<le> c \<and> c < rl_end_x rl \<and> k < 4 \<and>
                    i = (rl_y rl * nat (ibuf_x ib) + c) * 4 + k) \<longrightarrow>
            rect_float (render_rasterline P rl ib) i = rect_float ib i) \<and>
         ibuf_x (render_rasterline P rl ib) = ibuf_x ib \<and>
         ibuf_y (render_rasterline P rl ib) = ibuf_y ib \<and>
         channels (render_rasterline P rl ib) = channels ib \<and>
         (\<forall>n. rect_float (render_rasterline P rl (ib\<lparr>channels := n\<rparr>)) =
              rect_float (render_rasterline P rl ib))"
proof -
  let ?b = "rl_y rl * nat (ibuf_x ib)"
  let ?fs = "fragment_shader P"
  have rect: "rect_float (render_rasterline P rl ib) i =
     (if ?b + rl_start_x rl \<le> i div 4 \<and> i div 4 < ?b + rl_end_x rl
      then float4_at (?fs (start_data rl +
             real (i div 4 - (?b + rl_start_x rl)) * delta_step rl)) (i mod 4)
      else rect_float ib i)" for i
    unfolding render_rasterline_def using assms by (rule render_loop_rect)
  have written: "rect_float (render_rasterline P rl ib) ((?b + c) * 4 + k) =
      float4_at (?fs (start_data rl + real (c - rl_start_x rl) * delta_step rl)) k"
    if "rl_start_x rl \<le> c" "c < rl_end_x rl" "k < 4" for c k
  proof -
    have d: "((?b + c) * 4 + k) div 4 = ?b + c" and m: "((?b + c) * 4 + k) mod 4 = k"
      using that(3) div_mod_4 [of k "?b + c"] by blast+
    have c: "?b + rl_start_x rl \<le> ?b + c \<and> ?b + c < ?b + rl_end_x rl"
      using that by simp
    have s: "?b + c - (?b + rl_start_x rl) = c - rl_start_x rl"
      by simp
    show ?thesis
      unfolding rect d m by (simp only: c simp_thms if_True s)
  qed
  have frame: "rect_float (render_rasterline P rl ib) i = rect_float ib i"
    if "\<not> (\<exists>c k. rl_start_x rl \<le> c \<and> c < rl_end_x rl \<and> k < 4 \<and> i = (?b + c) * 4 + k)" for i
  proof -
    have "\<not> (?b + rl_start_x rl \<le> i div 4 \<and> i div 4 < ?b + rl_end_x rl)"
    proof
      assume a: "?b + rl_start_x rl \<le> i div 4 \<and> i div 4 < ?b + rl_end_x rl"
      define c where "c = i div 4 - ?b"
      have q: "i div 4 = ?b + c"
        using a unfolding c_def by simp
      have "rl_start_x rl \<le> c" and "c < rl_end_x rl"
        using a unfolding q by simp_all
      moreover have "i mod 4 < 4"
        by simp
      moreover have "i = (?b + c) * 4 + i mod 4"
        unfolding q [symmetric] by simp
      ultimately show False
        using that by blast
    qed
    then show ?thesis
      unfolding rect by (rule if_not_P)
  qed
  have dims: "ibuf_x (render_rasterline P rl ib) = ibuf_x ib \<and>
      ibuf_y (render_rasterline P rl ib) = ibuf_y ib \<and>
      channels (render_rasterline P rl ib) = channels ib"
    unfolding render_rasterline_def by (rule render_loop_dims)
  have chan: "rect_float (render_rasterline P rl (ib\<lparr>channels := n\<rparr>)) =
              rect_float (render_rasterline P rl ib)" for n
    unfolding render_rasterline_def by (rule render_loop_cong) simp_all
  show ?thesis
    using written frame dims chan by blast
qed

theorem render_rasterline_writes_witness:
  "0 \<le> ibuf_x (image_buffer (example_rasterizer 8 8)) \<and>
   (int (rl_y \<lparr>rl_y = 1, rl_start_x = 0, rl_end_x = 2, start_data = 1, delta_step = 0\<rparr>) *
      ibuf_x (image_buffer (example_rasterizer 8 8)) +
    int (rl_end_x \<lparr>rl_y = 1, rl_start_x = 0, rl_end_x = 2, start_data = 1, delta_step = 0\<rparr>)) * 4
     \<le> 2 ^ 32 \<and>
   rect_float (render_rasterline (example_pipeline 4096)
      \<lparr>rl_y = 1, rl_start_x = 0, rl_end_x = 2, start_data = 1, delta_step = 0\<rparr>
      (image_buffer (example_rasterizer 8 8))) 39 = 1 \<and>
   rect_float (render_rasterline (example_pipeline 4096)
      \<lparr>rl_y = 1, rl_start_x = 0, rl_end_x = 2, start_data = 1, delta_step = 0\<rparr>
      (image_buffer (example_rasterizer 8 8))) 5 = 0"
proof -
  let ?rl = "\<lparr>rl_y = 1, rl_start_x = 0, rl_end_x = 2, start_data = 1, delta_step = 0\<rparr>"
  let ?ib = "image_buffer (example_rasterizer 8 8)"
  have w: "ibuf_x ?ib = 8" and z: "rect_float ?ib 5 = 0"
    by (simp_all add: example_rasterizer_def)
  have h1: "0 \<le> ibuf_x ?ib"
    by (simp add: w)
  have h2: "(int (rl_y ?rl) * ibuf_x ?ib + int (rl_end_x ?rl)) * 4 \<le> 2 ^ 32"
    by (simp add: w)
  note t = render_rasterline_writes [OF h1 h2, of "example_pipeline 4096"]
  have "rl_start_x ?rl \<le> 1 \<and> 1 < rl_end_x ?rl \<and> (3::nat) < 4"
    by simp
  with t have "rect_float (render_rasterline (example_pipeline 4096) ?rl ?ib)
      ((rl_y ?rl * nat (ibuf_x ?ib) + 1) * 4 + 3) =
     float4_at (fragment_shader (example_pipeline 4096)
        (start_data ?rl + real (1 - rl_start_x ?rl) * delta_step ?rl)) 3"
    by blast
  then have a: "rect_float (render_rasterline (example_pipeline 4096) ?rl ?ib) 39 = 1"
    by (simp add: w example_pipeline_def)
  have "\<not> (\<exists>c k. rl_start_x ?rl \<le> c \<and> c < rl_end_x ?rl \<and> k < 4 \<and>
            5 = (rl_y ?rl * nat (ibuf_x ?ib) + c) * 4 + k)"
    by (simp add: w)
  with t have "rect_float (render_rasterline (example_pipeline 4096) ?rl ?ib) 5 = rect_float ?ib 5"
    by blast
  then have b: "rect_float (render_rasterline (example_pipeline 4096) ?rl ?ib) 5 = 0"
    by (simp add: z)
  show ?thesis
    using h1 h2 a b by blast
qed

text \<open>
  The claim as stated, for every rasterline, fails where the offset wraps: in a buffer
  65536 wide and 16385 high the rasterline of row 16384 with the one column 0 lies
  inside the buffer, its offset \<open>(16384 * 65536 + 0) * 4\<close> is \<open>2 ^ 32\<close>, and the four
  channels are written at offset 0, the first pixel of row 0, while the cell at
  \<open>2 ^ 32\<close> is left as it was.
\<close>

theorem render_rasterline_writes_counterexample:
  "rasterline_invariant (image_buffer (example_rasterizer 65536 16385))
     \<lparr>rl_y = 16384, rl_start_x = 0, rl_end_x = 1, start_data = 1, delta_step = 0\<rparr> \<and>
   rect_float (image_buffer (example_rasterizer 65536 16385)) 0 = 0 \<and>
   rect_float (render_rasterline (example_pipeline 4096)
      \<lparr>rl_y = 16384, rl_start_x = 0, rl_end_x = 1, start_data = 1, delta_step = 0\<rparr>
      (image_buffer (example_rasterizer 65536 16385))) 0 = 1 \<and>
   rect_float (render_rasterline (example_pipeline 4096)
      \<lparr>rl_y = 16384, rl_start_x = 0, rl_end_x = 1, start_data = 1, delta_step = 0\<rparr>
      (image_buffer (example_rasterizer 65536 16385))) ((16384 * 65536 + 0) * 4 + 0) = 0 \<and>
   \<not> (\<exists>c k. 0 \<le> c \<and> c < 1 \<and> k < 4 \<and> (0 :: nat) = (16384 * 65536 + c) * 4 + k)"
  by (simp add: rasterline_invariant_def render_rasterline_def render_loop.simps u32_def
      copy_v4_v4_def example_pipeline_def example_rasterizer_def Let_def)

subsection \<open>Bounds of the rasterlines created\<close>



text \<open>
  The pixel-centre clamping method rounds to the first column whose centre is not
  before the coordinate. It is monotonic, keeps a coordinate below a width at a column
  that is at most the width, and a non-negative coordinate at a non-negative column.
\<close>

lemma round_half_down_ceiling: "round_half_down v = \<lceil>v - 1 / 2\<rceil>"
proof -
  have f: "real_of_int \<lfloor>v\<rfloor> \<le> v" "v < real_of_int \<lfloor>v\<rfloor> + 1"
    by linarith+
  show ?thesis
  proof (cases "to_fract v > 1 / 2")
    case True
    then have h: "real_of_int \<lfloor>v\<rfloor> + 1 / 2 < v"
      by (simp add: to_fract_def)
    have "\<lceil>v\<rceil> = \<lfloor>v\<rfloor> + 1"
    proof (rule ceiling_unique)
      show "real_of_int (\<lfloor>v\<rfloor> + 1) - 1 < v"
        using h by simp
      show "v \<le> real_of_int (\<lfloor>v\<rfloor> + 1)"
        using f by simp
    qed
    moreover have "\<lceil>v - 1 / 2\<rceil> = \<lfloor>v\<rfloor> + 1"
    proof (rule ceiling_unique)
      show "real_of_int (\<lfloor>v\<rfloor> + 1) - 1 < v - 1 / 2"
        using h by simp
      have "v - 1 / 2 \<le> real_of_int \<lfloor>v\<rfloor> + 1"
        using f by linarith
      then show "v - 1 / 2 \<le> real_of_int (\<lfloor>v\<rfloor> + 1)"
        by simp
    qed
    ultimately show ?thesis
      using True by (simp add: round_half_down_def)
  next
    case False
    then have h: "v \<le> real_of_int \<lfloor>v\<rfloor> + 1 / 2"
      by (simp add: to_fract_def)
    have "\<lceil>v - 1 / 2\<rceil> = \<lfloor>v\<rfloor>"
    proof (rule ceiling_unique)
      show "real_of_int \<lfloor>v\<rfloor> - 1 < v - 1 / 2"
        using f by linarith
      show "v - 1 / 2 \<le> real_of_int \<lfloor>v\<rfloor>"
        using h by linarith
    qed
    then show ?thesis
      using False by (simp add: round_half_down_def)
  qed
qed

lemma center_pixel_columns:
  "sx \<le> ex \<Longrightarrow>
     column_for CenterPixelClampingMethod sx \<le> column_for CenterPixelClampingMethod ex"
  "sx < real_of_int w \<Longrightarrow> column_for CenterPixelClampingMethod sx \<le> w"
  "0 \<le> ex \<Longrightarrow> 0 \<le> column_for CenterPixelClampingMethod ex"
proof -
  show "sx \<le> ex \<Longrightarrow>
     column_for CenterPixelClampingMethod sx \<le> column_for CenterPixelClampingMethod ex"
    by (simp add: CenterPixelClampingMethod_def round_half_down_ceiling ceiling_mono)
  show "sx < real_of_int w \<Longrightarrow> column_for CenterPixelClampingMethod sx \<le> w"
    by (simp add: CenterPixelClampingMethod_def round_half_down_ceiling ceiling_le_iff)
  show "0 \<le> ex \<Longrightarrow> 0 \<le> column_for CenterPixelClampingMethod ex"
    by (simp add: CenterPixelClampingMethod_def round_half_down_ceiling)
qed




subsection \<open>The rows of the second scanline loop\<close>

text \<open>
  A scanline loop from \<open>v\<close> with bound \<open>b\<close> ends with its variable at the bound (or
  where it started, when that is beyond) and calls \<open>clamped_rasterline\<close> once for each
  row \<open>u\<close> with \<open>v <= u < b\<close> that lies inside the buffer, and for no other row.
  \<open>rasterize_triangle\<close> runs its second loop with the bound \<open>max_v\<close>, which is the
  scanline of the bottom vertex minus one.
\<close>

lemma fold_render_rasterline_height:
  "ibuf_y (fold (render_rasterline P) rls ib) = ibuf_y ib"
  by (induction rls arbitrary: ib) (simp_all add: render_rasterline_def render_loop_dims)

lemma flush_height: "ibuf_y (image_buffer (flush P s)) = ibuf_y (image_buffer s)"
  by (simp add: flush_def fold_render_rasterline_height)

lemma flush_rasterlines: "rasterlines (stats (flush P s)) = rasterlines (stats s)"
  by (simp add: flush_def increase_defs)

lemma append_height: "ibuf_y (image_buffer (append P rl s)) = ibuf_y (image_buffer s)"
  by (simp add: append_def Let_def flush_height)

lemma append_rasterlines: "rasterlines (stats (append P rl s)) = rasterlines (stats s)"
  by (simp add: append_def Let_def flush_rasterlines)

lemma clamped_rasterline_counts:
  "rasterlines (stats (snd (clamped_rasterline P y sx ex sd ed s))) = rasterlines (stats s) + 1 \<and>
   image_buffer (snd (clamped_rasterline P y sx ex sd ed s)) = image_buffer s"
  by (simp add: clamped_rasterline_def Let_def increase_defs)

lemma scanline_row_counts:
  "rasterlines (stats (scanline_row P v l r s)) =
     rasterlines (stats s) + (if 0 \<le> v \<and> v < ibuf_y (image_buffer s) then 1 else 0) \<and>
   ibuf_y (image_buffer (scanline_row P v l r s)) = ibuf_y (image_buffer s)"
proof (cases "0 \<le> v \<and> v < ibuf_y (image_buffer s)")
  case False
  have "scanline_rasterline P v l r s = (None, s)"
    unfolding scanline_rasterline_def using False by (rule if_not_P)
  then have "scanline_row P v l r s = s"
    by (simp add: scanline_row_def)
  then show ?thesis
    by (simp only: if_not_P [OF False]) simp
next
  case True
  obtain res s1 where c: "clamped_rasterline P v (fst (coord l)) (fst (coord r))
      (data l) (data r) s = (res, s1)"
    by (cases "clamped_rasterline P v (fst (coord l)) (fst (coord r)) (data l) (data r) s")
  have s1: "rasterlines (stats s1) = rasterlines (stats s) + 1"
      "image_buffer s1 = image_buffer s"
    using clamped_rasterline_counts [of P v "fst (coord l)" "fst (coord r)" "data l" "data r" s]
    by (simp_all add: c)
  have "scanline_rasterline P v l r s = (res, s1)"
    unfolding scanline_rasterline_def c [symmetric] using True by (rule if_P)
  then have "rasterlines (stats (scanline_row P v l r s)) = rasterlines (stats s1) \<and>
     ibuf_y (image_buffer (scanline_row P v l r s)) = ibuf_y (image_buffer s1)"
    by (cases res) (simp_all add: scanline_row_def append_height append_rasterlines)
  then show ?thesis
    by (simp only: if_P [OF True] s1)
qed

lemma scanline_loop_rows:
  "fst (scanline_loop P la ra b v l r s) = max v b \<and>
   rasterlines (stats (snd (snd (snd (scanline_loop P la ra b v l r s))))) =
     rasterlines (stats s) + nat (min b (ibuf_y (image_buffer s)) - max v 0)"
proof (induction P la ra b v l r s rule: scanline_loop.induct)
  case (1 P la ra b v l r s)
  show ?case
  proof (cases "v < b")
    case False
    then show ?thesis
      by (subst (1 2) scanline_loop.simps) simp
  next
    case True
    let ?s1 = "scanline_row P v l r s"
    have h: "ibuf_y (image_buffer ?s1) = ibuf_y (image_buffer s)"
      and c: "rasterlines (stats ?s1) =
        rasterlines (stats s) + (if 0 \<le> v \<and> v < ibuf_y (image_buffer s) then 1 else 0)"
      using scanline_row_counts [of P v l r s] by simp_all
    let ?n = "if 0 \<le> v \<and> v < ibuf_y (image_buffer s) then 1 else 0 :: nat"
    have a: "?n + nat (min b (ibuf_y (image_buffer s)) - max (v + 1) 0) =
          nat (min b (ibuf_y (image_buffer s)) - max v 0)"
      using True by (cases "0 \<le> v \<and> v < ibuf_y (image_buffer s)") auto
    have m: "max (v + 1) b = max v b"
      using True by simp
    have unf: "scanline_loop P la ra b v l r s =
        scanline_loop P la ra b (v + 1) (operator_add_assign l la)
          (operator_add_assign r ra) ?s1"
      using True by (subst scanline_loop.simps) simp
    have "rasterlines (stats (snd (snd (snd (scanline_loop P la ra b v l r s))))) =
        rasterlines (stats s) + (?n + nat (min b (ibuf_y (image_buffer s)) - max (v + 1) 0))"
      unfolding unf using "1.IH" [OF True] by (simp only: h c add.assoc)
    moreover have "fst (scanline_loop P la ra b v l r s) = max v b"
      unfolding unf using "1.IH" [OF True] by (simp only: m)
    ultimately show ?thesis
      by (simp only: a simp_thms)
  qed
qed

text \<open>
  Claim C4. The claim has the second loop process the rows from \<open>mid.scanline\<close> up to
  and including \<open>bottom.scanline - 1\<close>. In the code \<open>max_v\<close> is already
  \<open>bottom.scanline - 1\<close> and the loop runs while \<open>v < max_v\<close>, so its last row is
  \<open>bottom.scanline - 2\<close>. For the triangle \<open>(0, 0)\<close>, \<open>(8, 0)\<close>, \<open>(0, 4)\<close> in an 8 by
  8 buffer the first loop is empty (top and mid are both on scanline 0),
  \<open>bottom.scanline - 1\<close> is 3, and only the rows 0, 1 and 2 are processed: three calls
  of \<open>clamped_rasterline\<close>, none discarded, three rasterlines.
\<close>

theorem phase2_stops_before_last_row:
  "scanline_for (clamping_method (example_pipeline 4096)) 0 = 0 \<and>
   scanline_for (clamping_method (example_pipeline 4096)) 4 - 1 = 3 \<and>
   map rl_y (rasterlines_buffer (draw_triangle (example_pipeline 4096) (0, 0) (8, 0) (0, 4)
      (example_rasterizer 8 8))) = [0, 1, 2] \<and>
   rasterlines (stats (draw_triangle (example_pipeline 4096) (0, 0) (8, 0) (0, 4)
      (example_rasterizer 8 8))) = 3 \<and>
   discarded_rasterlines (stats (draw_triangle (example_pipeline 4096) (0, 0) (8, 0) (0, 4)
      (example_rasterizer 8 8))) = 0"
  by (simp add: eval_defs Let_def scanline_loop.simps)

end
